theory Spec2Isabelle
  imports Main
begin

chapter \<open>The model\<close>

section \<open>Version comparison (smartVerCmp, parseVerParts)\<close>

text \<open>
  A Go string is a sequence of bytes; \<open>string\<close> (a list of 8-bit characters) models it,
  \<open>length\<close> is Go's \<open>len\<close>, \<open>take n s\<close> is \<open>s[:n]\<close> and \<open>drop n s\<close> is \<open>s[n:]\<close>
  (the source only slices within range). \<open>byte c\<close> is the numeric value of a byte.
\<close>

definition byte :: "char \<Rightarrow> nat" where
  "byte c = of_char c"

text \<open>
  The first loop of parseVerParts: \<open>for num = 0; num < len(v); num++\<close>, leaving at the
  first byte that is below \<open>'0'\<close> (48) or above \<open>'9'\<close> (57). The result is the
  number of leading digit bytes.
\<close>

fun digitRun :: "string \<Rightarrow> nat" where
  "digitRun [] = 0"
| "digitRun (c # cs) = (if byte c < 48 \<or> byte c > 57 then 0 else Suc (digitRun cs))"

text \<open>
  The predicate handed to strings.IndexFunc: a rune in \<open>'!'..'~'\<close> (33..126) outside the
  gaps \<open>'0'..'9'\<close>, \<open>'A'..'Z'\<close>, \<open>'a'..'z'\<close>.
\<close>

definition isPunct :: "nat \<Rightarrow> bool" where
  "isPunct b = (b \<ge> 33 \<and> b \<le> 126 \<and>
     \<not> (b > 47 \<and> b < 58 \<or> b > 64 \<and> b < 91 \<or> b > 96 \<and> b < 123))"

text \<open>
  strings.IndexFunc (Go standard library) returns the byte index of the first rune that
  satisfies the predicate, or -1. The predicate above accepts ASCII runes only, every byte
  of a multi-byte UTF-8 sequence is at least 128 and an invalid byte decodes to U+FFFD, so
  the index is that of the first byte satisfying the predicate. \<open>None\<close> stands for -1.
\<close>

fun IndexFunc :: "string \<Rightarrow> (nat \<Rightarrow> bool) \<Rightarrow> nat option" where
  "IndexFunc [] f = None"
| "IndexFunc (c # cs) f =
     (if f (byte c) then Some 0
      else (case IndexFunc cs f of None \<Rightarrow> None | Some i \<Rightarrow> Some (Suc i)))"

definition parseVerParts :: "string \<Rightarrow> nat \<times> nat \<times> nat" where
  "parseVerParts v =
     (let num = digitRun v in
      if num = length v then (num, num, num)
      else (case IndexFunc v isPunct of
              None \<Rightarrow> (num, length v, length v)
            | Some skip \<Rightarrow> (num, skip, skip + 1)))"

text \<open>
  strings.Compare (Go standard library): lexicographic comparison of the bytes,
  -1, 0 or 1.
\<close>

fun Compare :: "string \<Rightarrow> string \<Rightarrow> int" where
  "Compare [] [] = 0"
| "Compare [] (y # ys) = - 1"
| "Compare (x # xs) [] = 1"
| "Compare (x # xs) (y # ys) =
     (if byte x < byte y then - 1 else if byte x > byte y then 1 else Compare xs ys)"

text \<open>
  The loop of smartVerCmp. \<open>Some r\<close>: the loop returned \<open>r\<close>; \<open>None\<close>: the loop
  condition failed (one of the remaining strings is empty).
\<close>

function smartVerCmp_loop :: "string \<Rightarrow> string \<Rightarrow> int option" where
  "smartVerCmp_loop s1 s2 =
     (if length s1 > 0 \<and> length s2 > 0 then
        (case parseVerParts s1 of (num1, cmpTo1, skip1) \<Rightarrow>
         case parseVerParts s2 of (num2, cmpTo2, skip2) \<Rightarrow>
           if num1 > num2 then Some 1
           else if num2 > num1 then Some (- 1)
           else let cmp = Compare (take cmpTo1 s1) (take cmpTo2 s2) in
             if cmp \<noteq> 0 then Some cmp
             else smartVerCmp_loop (drop skip1 s1) (drop skip2 s2))
      else None)"
  by pat_completeness auto
termination
proof (relation "measure (\<lambda>(s1, s2). length s1)")
  show "wf (measure (\<lambda>(s1, s2). length s1))" by simp
next
  fix s1 s2 :: string and y1 num1 cmpTo1 skip1 skip2
  assume ne: "0 < length s1 \<and> 0 < length s2"
    and p: "(num1, y1) = parseVerParts s1" "(cmpTo1, skip1) = y1"
  from ne have "0 < snd (snd (parseVerParts s1))"
    by (auto simp: parseVerParts_def Let_def split: option.splits)
  with p have "0 < skip1"
    by (metis snd_conv)
  with ne show "((drop skip1 s1, drop skip2 s2), (s1, s2)) \<in> measure (\<lambda>(s1, s2). length s1)"
    by simp
qed

declare smartVerCmp_loop.simps [simp del]

definition smartVerCmp :: "string \<Rightarrow> string \<Rightarrow> int" where
  "smartVerCmp v1 v2 =
     (case smartVerCmp_loop v1 v2 of
        Some r \<Rightarrow> r
      | None \<Rightarrow>
          if length v1 > length v2 then 1
          else if length v2 > length v1 then - 1
          else 0)"


section \<open>The feed record (package jsonschema)\<close>

text \<open>
  The structs of the feed schema, with the fields the source reads. A Go pointer is an
  \<open>option\<close>: \<open>None\<close> is nil. The source compares \<open>CVE\<close>, \<open>CVEDataMeta\<close>,
  \<open>Problemtype\<close>, \<open>Impact\<close>, the base metrics, the CVSS structs, the problem-type
  entries and the language strings with nil, and it stores the elements of \<open>Nodes\<close>,
  \<open>Children\<close> and \<open>CPEMatch\<close> in pointer fields; the description section and the
  configurations are taken to be pointers like the other sections. The field \<open>Description\<close> of a problem-type entry is
  \<open>ptDescription\<close> here, and the description section of the source's
  \<open>CVE.Description\<close> is \<open>cveDescription\<close>, since the model names the accessor
  \<open>Description\<close>. A base score is only ever passed on, so its type is a parameter
  \<open>'f\<close> whose zero is the literal \<open>0.0\<close>.
\<close>

record LangString =
  Lang :: string
  Value :: string

record CVEDataMeta =
  ID :: string

record ProblemtypeData =
  ptDescription :: "LangString option list"

record Problemtype =
  ProblemtypeData :: "ProblemtypeData option list"

record DescriptionSection =
  DescriptionData :: "LangString option list"

record CVEJSON40 =
  CVEDataMeta :: "CVEDataMeta option"
  Problemtype :: "Problemtype option"
  cveDescription :: "DescriptionSection option"

record 'f CVSS =
  BaseScore :: 'f

record 'f BaseMetricV2 =
  CVSSV2 :: "'f CVSS option"

record 'f BaseMetricV3 =
  CVSSV3 :: "'f CVSS option"

record 'f Impact =
  BaseMetricV2 :: "'f BaseMetricV2 option"
  BaseMetricV3 :: "'f BaseMetricV3 option"

record DefCPEMatch =
  Cpe22Uri :: string
  Cpe23Uri :: string
  VersionStartIncluding :: string
  VersionStartExcluding :: string
  VersionEndIncluding :: string
  VersionEndExcluding :: string

datatype DefNode =
  DefNode (Operator: string) (Negate: bool)
    (Children: "DefNode option list") (CPEMatch: "DefCPEMatch option list")

record Configurations =
  Nodes :: "DefNode option list"

record 'f DefCVEItem =
  CVE :: "CVEJSON40 option"
  Configurations :: "Configurations option"
  Impact :: "'f Impact option"

section \<open>The identifier primitives (package wfn)\<close>

text \<open>
  A run-time panic of the Go code, and the error values its functions return.
\<close>

datatype panic = NilDereference

datatype error = NilNodeError | ParseError

text \<open>
  Package wfn is not part of the source read here. Of its \<open>Attributes\<close> struct the
  source touches the string field \<open>Version\<close> only; the other attributes are the
  extension \<open>'r\<close> of the record. Its functions and constants are the fields of an
  environment \<open>'r wfn\<close> that every operation below takes as its first argument:
  \<open>Parse\<close> (a resolved identifier or an error), \<open>Match\<close> (the structural match of
  a rule's identifier against the platform pointer), \<open>StripSlashes\<close>, and the
  attribute values \<open>Any\<close> and \<open>NA\<close>.
\<close>

record Attributes =
  Version :: string

record 'r wfn =
  Parse :: "string \<Rightarrow> error + 'r Attributes_scheme"
  Match :: "'r Attributes_scheme \<Rightarrow> 'r Attributes_scheme option \<Rightarrow> bool"
  StripSlashes :: "string \<Rightarrow> string"
  Any :: string
  NA :: string

section \<open>The wrappers of package nvdjson\<close>

text \<open>
  The struct \<open>cpeMatch\<close> (the raw rule and the identifier cached on it), the struct
  \<open>node\<close> (a datatype, since it holds nodes) and the struct \<open>cveItem\<close>. The elements
  of \<open>nvdcommonChildren\<close> and \<open>configNodes\<close> are the non-nil nodes that newNode
  makes. The field \<open>node\<close> of a node is \<open>node_json\<close>, the field \<open>cpeMatch\<close> of a
  cpeMatch is \<open>cpeMatch_json\<close> and the field \<open>cveItem\<close> of a cveItem is
  \<open>cveItem_json\<close>.
\<close>

record 'r cpeMatch =
  cpeMatch_json :: "DefCPEMatch option"
  wfname :: "'r Attributes_scheme option"

datatype 'r node =
  Node (node_json: "DefNode option") (nvdcommonChildren: "'r node list")
    (wfnCPEs: "'r Attributes_scheme option list")

record ('f, 'r) cveItem =
  cveItem_json :: "'f DefCVEItem option"
  configNodes :: "'r node list"

section \<open>Resolving a rule's identifier (node2CPE)\<close>

text \<open>
  node2CPE returns a pointer and an error, and writes the parsed identifier to the
  \<open>wfname\<close> field of the wrapper it was given. The model returns, in this order: the
  Go result (\<open>Inl\<close> the error, \<open>Inr\<close> the identifier), the wrapper after the call,
  and the strings handed to \<open>Parse\<close> during the call. A nil \<open>cpeMatch\<close> field
  panics at \<open>node.cpeMatch.Cpe23Uri\<close>. \<open>targetUri\<close> is the string that is parsed:
  \<open>Cpe23Uri\<close>, or \<open>Cpe22Uri\<close> when that is empty.
\<close>

definition targetUri :: "DefCPEMatch \<Rightarrow> string" where
  "targetUri m = (if Cpe23Uri m = [] then Cpe22Uri m else Cpe23Uri m)"

definition node2CPE ::
  "'r wfn \<Rightarrow> 'r cpeMatch option \<Rightarrow>
   panic + ((error + 'r Attributes_scheme) \<times> 'r cpeMatch option \<times> string list)" where
  "node2CPE w node =
     (case node of
        None \<Rightarrow> Inr (Inl NilNodeError, None, [])
      | Some nd \<Rightarrow>
          (case wfname nd of
             Some name \<Rightarrow> Inr (Inr name, Some nd, [])
           | None \<Rightarrow>
               (case cpeMatch_json nd of
                  None \<Rightarrow> Inl NilDereference
                | Some m \<Rightarrow>
                    let uri = targetUri m in
                    (case Parse w uri of
                       Inl err \<Rightarrow> Inr (Inl err, Some (nd\<lparr>wfname := None\<rparr>), [uri])
                     | Inr name \<Rightarrow> Inr (Inr name, Some (nd\<lparr>wfname := Some name\<rparr>), [uri])))))"

section \<open>Building the nodes (newNode, newCveItem)\<close>

text \<open>
  The second loop of newNode: one slot per rule, filled when node2CPE returns no
  error and left nil otherwise. Each rule is wrapped in a fresh \<open>cpeMatch\<close>.
\<close>

fun newNode_cpes ::
  "'r wfn \<Rightarrow> DefCPEMatch option list \<Rightarrow>
   panic + ('r Attributes_scheme option list \<times> string list)" where
  "newNode_cpes w [] = Inr ([], [])"
| "newNode_cpes w (m # ms) =
     (case node2CPE w (Some \<lparr>cpeMatch_json = m, wfname = None\<rparr>) of
        Inl p \<Rightarrow> Inl p
      | Inr (res, _, parsed) \<Rightarrow>
          (case newNode_cpes w ms of
             Inl p \<Rightarrow> Inl p
           | Inr (cpes, parsed') \<Rightarrow>
               Inr ((case res of Inl err \<Rightarrow> None | Inr cpe \<Rightarrow> Some cpe) # cpes,
                    parsed @ parsed')))"

text \<open>
  newNode: a nil argument panics at \<open>n.node.Children\<close>. Each child is wrapped as
  \<open>&node{node: child}\<close>, with no children and no identifiers of its own. The second
  component of the result lists the strings handed to \<open>Parse\<close>.
\<close>

definition newNode :: "'r wfn \<Rightarrow> DefNode option \<Rightarrow> panic + ('r node \<times> string list)" where
  "newNode w json =
     (case json of
        None \<Rightarrow> Inl NilDereference
      | Some j \<Rightarrow>
          let children =
                (if length (Children j) \<noteq> 0
                 then map (\<lambda>child. Node child [] []) (Children j) else [])
          in (case (if length (CPEMatch j) \<noteq> 0 then newNode_cpes w (CPEMatch j)
                    else Inr ([], [])) of
                Inl p \<Rightarrow> Inl p
              | Inr (cpes, parsed) \<Rightarrow> Inr (Node (Some j) children cpes, parsed)))"

fun newCveItem_nodes ::
  "'r wfn \<Rightarrow> DefNode option list \<Rightarrow> panic + ('r node list \<times> string list)" where
  "newCveItem_nodes w [] = Inr ([], [])"
| "newCveItem_nodes w (n # ns) =
     (case newNode w n of
        Inl p \<Rightarrow> Inl p
      | Inr (nd, parsed) \<Rightarrow>
          (case newCveItem_nodes w ns of
             Inl p \<Rightarrow> Inl p
           | Inr (nds, parsed') \<Rightarrow> Inr (nd # nds, parsed @ parsed')))"

definition newCveItem ::
  "'r wfn \<Rightarrow> 'f DefCVEItem option \<Rightarrow> panic + (('f, 'r) cveItem \<times> string list)" where
  "newCveItem w json =
     (case json of
        None \<Rightarrow> Inl NilDereference
      | Some j \<Rightarrow>
          (case Configurations j of
             None \<Rightarrow> Inl NilDereference
           | Some c \<Rightarrow>
               (case newCveItem_nodes w (Nodes c) of
                  Inl p \<Rightarrow> Inl p
                | Inr (nds, parsed) \<Rightarrow>
                    Inr (\<lparr>cveItem_json = Some j, configNodes = nds\<rparr>, parsed))))"

section \<open>The accessors of a record (methods of cveItem)\<close>

text \<open>
  The receiver is a pointer: \<open>None\<close> is the nil receiver. Every dereference of a nil
  pointer is the result \<open>Inl NilDereference\<close>.
\<close>

definition CVEID :: "('f, 'r) cveItem option \<Rightarrow> panic + string" where
  "CVEID i =
     (case i of
        None \<Rightarrow> Inr []
      | Some it \<Rightarrow>
          (case cveItem_json it of
             None \<Rightarrow> Inl NilDereference
           | Some j \<Rightarrow>
               (case CVE j of
                  None \<Rightarrow> Inl NilDereference
                | Some c \<Rightarrow>
                    (case CVEDataMeta c of
                       None \<Rightarrow> Inl NilDereference
                     | Some m \<Rightarrow> Inr (ID m)))))"

definition Config :: "('f, 'r) cveItem option \<Rightarrow> 'r node list" where
  "Config i = (case i of None \<Rightarrow> [] | Some it \<Rightarrow> configNodes it)"

text \<open>
  getLangStr: \<open>s\<close> is overwritten by every non-nil entry, and the loop is left at the
  first entry whose language is \<open>en\<close>.
\<close>

fun getLangStr_loop :: "string \<Rightarrow> LangString option list \<Rightarrow> string" where
  "getLangStr_loop s [] = s"
| "getLangStr_loop s (None # lss) = getLangStr_loop s lss"
| "getLangStr_loop s (Some ls # lss) =
     (if Lang ls = ''en'' then Value ls else getLangStr_loop (Value ls) lss)"

definition getLangStr :: "LangString option list \<Rightarrow> string" where
  "getLangStr lss = getLangStr_loop [] lss"

fun ProblemTypes_loop :: "ProblemtypeData option list \<Rightarrow> string list" where
  "ProblemTypes_loop [] = []"
| "ProblemTypes_loop (None # pts) = ProblemTypes_loop pts"
| "ProblemTypes_loop (Some pt # pts) = getLangStr (ptDescription pt) # ProblemTypes_loop pts"

definition ProblemTypes :: "('f, 'r) cveItem option \<Rightarrow> panic + string list" where
  "ProblemTypes i =
     (case i of
        None \<Rightarrow> Inl NilDereference
      | Some it \<Rightarrow>
          (case cveItem_json it of
             None \<Rightarrow> Inl NilDereference
           | Some j \<Rightarrow>
               (case CVE j of
                  None \<Rightarrow> Inr []
                | Some c \<Rightarrow>
                    (case CVEDataMeta c of
                       None \<Rightarrow> Inr []
                     | Some m \<Rightarrow>
                         if ID m = [] then Inr []
                         else (case Problemtype c of
                                 None \<Rightarrow> Inr []
                               | Some pt \<Rightarrow> Inr (ProblemTypes_loop (ProblemtypeData pt)))))))"

definition Description :: "('f, 'r) cveItem option \<Rightarrow> panic + string" where
  "Description i =
     (case i of
        None \<Rightarrow> Inl NilDereference
      | Some it \<Rightarrow>
          (case cveItem_json it of
             None \<Rightarrow> Inl NilDereference
           | Some j \<Rightarrow>
               (case CVE j of
                  None \<Rightarrow> Inl NilDereference
                | Some c \<Rightarrow>
                    (case cveDescription c of
                       None \<Rightarrow> Inl NilDereference
                     | Some d \<Rightarrow>
                         (case DescriptionData d of
                            [] \<Rightarrow> Inr []
                          | None # _ \<Rightarrow> Inl NilDereference
                          | Some dsc # _ \<Rightarrow> Inr (Value dsc))))))"

definition CVSS20base :: "('f::zero, 'r) cveItem option \<Rightarrow> panic + 'f" where
  "CVSS20base i =
     (case i of
        None \<Rightarrow> Inl NilDereference
      | Some it \<Rightarrow>
          (case cveItem_json it of
             None \<Rightarrow> Inl NilDereference
           | Some j \<Rightarrow>
               (case Impact j of
                  None \<Rightarrow> Inr 0
                | Some im \<Rightarrow>
                    (case BaseMetricV2 im of
                       None \<Rightarrow> Inr 0
                     | Some bm \<Rightarrow>
                         (case CVSSV2 bm of
                            None \<Rightarrow> Inr 0
                          | Some cv \<Rightarrow> Inr (BaseScore cv))))))"

definition CVSS30base :: "('f::zero, 'r) cveItem option \<Rightarrow> panic + 'f" where
  "CVSS30base i =
     (case i of
        None \<Rightarrow> Inl NilDereference
      | Some it \<Rightarrow>
          (case cveItem_json it of
             None \<Rightarrow> Inl NilDereference
           | Some j \<Rightarrow>
               (case Impact j of
                  None \<Rightarrow> Inr 0
                | Some im \<Rightarrow>
                    (case BaseMetricV3 im of
                       None \<Rightarrow> Inr 0
                     | Some bm \<Rightarrow>
                         (case CVSSV3 bm of
                            None \<Rightarrow> Inr 0
                          | Some cv \<Rightarrow> Inr (BaseScore cv))))))"

section \<open>The accessors of a node (methods of node)\<close>

definition LogicalOperator :: "'r node option \<Rightarrow> panic + string" where
  "LogicalOperator n =
     (case n of
        None \<Rightarrow> Inr []
      | Some nd \<Rightarrow>
          (case node_json nd of None \<Rightarrow> Inl NilDereference | Some j \<Rightarrow> Inr (Operator j)))"

definition NegateIfNeeded :: "'r node option \<Rightarrow> bool \<Rightarrow> panic + bool" where
  "NegateIfNeeded n b =
     (case n of
        None \<Rightarrow> Inr b
      | Some nd \<Rightarrow>
          (case node_json nd of
             None \<Rightarrow> Inl NilDereference
           | Some j \<Rightarrow> if \<not> Negate j then Inr b else Inr (\<not> b)))"

definition InnerTests :: "'r node option \<Rightarrow> 'r node list" where
  "InnerTests n = (case n of None \<Rightarrow> [] | Some nd \<Rightarrow> nvdcommonChildren nd)"

definition CPEs :: "'r node option \<Rightarrow> 'r Attributes_scheme option list" where
  "CPEs n = (case n of None \<Rightarrow> [] | Some nd \<Rightarrow> wfnCPEs nd)"

section \<open>Matching a platform (MatchPlatform)\<close>

text \<open>
  What one turn of the loop of MatchPlatform does: go on with the next rule
  (\<open>continue\<close>, or the end of the loop body), or return from MatchPlatform.
\<close>

datatype flow = Continue | Return bool

text \<open>
  The loop body from \<open>wfn.Match\<close> on, for the identifier \<open>cpe\<close> as it stands after the
  version has been forced. A nil platform panics at \<open>platform.Version\<close>.
\<close>

definition matchVersion ::
  "'r wfn \<Rightarrow> 'r Attributes_scheme option \<Rightarrow> DefCPEMatch \<Rightarrow> 'r Attributes_scheme \<Rightarrow>
   panic + flow" where
  "matchVersion w platform cpeNode cpe =
     (if Match w cpe platform then
        (case platform of
           None \<Rightarrow> Inl NilDereference
         | Some pf \<Rightarrow>
             if Version pf = Any w \<or> Version pf = NA w then Inr (Return True)
             else if VersionStartIncluding cpeNode = [] \<and> VersionStartExcluding cpeNode = [] \<and>
                     VersionEndIncluding cpeNode = [] \<and> VersionEndExcluding cpeNode = []
               then Inr (Return True)
             else if Version cpe = NA w then Inr (Return False)
             else let ver = StripSlashes w (Version pf) in
               if VersionStartIncluding cpeNode \<noteq> [] \<and>
                  smartVerCmp ver (VersionStartIncluding cpeNode) < 0 then Inr Continue
               else if VersionStartExcluding cpeNode \<noteq> [] \<and>
                  smartVerCmp ver (VersionStartExcluding cpeNode) \<le> 0 then Inr Continue
               else if VersionEndIncluding cpeNode \<noteq> [] \<and>
                  smartVerCmp ver (VersionEndIncluding cpeNode) > 0 then Inr Continue
               else if VersionEndExcluding cpeNode \<noteq> [] \<and>
                  smartVerCmp ver (VersionEndExcluding cpeNode) \<ge> 0 then Inr Continue
               else Inr (Return True))
      else Inr Continue)"

text \<open>
  The whole loop body for one element of \<open>n.node.CPEMatch\<close>: the rule is wrapped in a
  fresh \<open>cpeMatch\<close> and resolved by node2CPE; an error goes on with the next rule.
  \<open>cpe.Version = wfn.Any\<close> writes through the pointer node2CPE returned; the wrapper
  is dropped at the end of the turn, so the model updates the value. The second
  component of the result lists the strings handed to \<open>Parse\<close>.
\<close>

definition matchRule ::
  "'r wfn \<Rightarrow> 'r Attributes_scheme option \<Rightarrow> bool \<Rightarrow> DefCPEMatch option \<Rightarrow>
   panic + (flow \<times> string list)" where
  "matchRule w platform requireVersion cpeNode =
     (case node2CPE w (Some \<lparr>cpeMatch_json = cpeNode, wfname = None\<rparr>) of
        Inl p \<Rightarrow> Inl p
      | Inr (res, _, parsed) \<Rightarrow>
          (case res of
             Inl err \<Rightarrow> Inr (Continue, parsed)
           | Inr cpe \<Rightarrow>
               (case cpeNode of
                  None \<Rightarrow> Inl NilDereference
                | Some m \<Rightarrow>
                    if VersionStartIncluding m \<noteq> [] \<or> VersionStartExcluding m \<noteq> [] \<or>
                       VersionEndIncluding m \<noteq> [] \<or> VersionEndExcluding m \<noteq> []
                    then (case matchVersion w platform m (cpe\<lparr>Version := Any w\<rparr>) of
                            Inl p \<Rightarrow> Inl p | Inr f \<Rightarrow> Inr (f, parsed))
                    else if requireVersion \<and> Version cpe = Any w then Inr (Continue, parsed)
                    else (case matchVersion w platform m cpe of
                            Inl p \<Rightarrow> Inl p | Inr f \<Rightarrow> Inr (f, parsed)))))"

fun MatchPlatform_loop ::
  "'r wfn \<Rightarrow> 'r Attributes_scheme option \<Rightarrow> bool \<Rightarrow> DefCPEMatch option list \<Rightarrow>
   panic + (bool \<times> string list)" where
  "MatchPlatform_loop w platform requireVersion [] = Inr (False, [])"
| "MatchPlatform_loop w platform requireVersion (cpeNode # rest) =
     (case matchRule w platform requireVersion cpeNode of
        Inl p \<Rightarrow> Inl p
      | Inr (Return b, parsed) \<Rightarrow> Inr (b, parsed)
      | Inr (Continue, parsed) \<Rightarrow>
          (case MatchPlatform_loop w platform requireVersion rest of
             Inl p \<Rightarrow> Inl p
           | Inr (b, parsed') \<Rightarrow> Inr (b, parsed @ parsed')))"

text \<open>
  MatchPlatform: the Go result, and the strings handed to \<open>Parse\<close> during the call.
\<close>

definition MatchPlatform ::
  "'r wfn \<Rightarrow> 'r node option \<Rightarrow> 'r Attributes_scheme option \<Rightarrow> bool \<Rightarrow>
   panic + (bool \<times> string list)" where
  "MatchPlatform w n platform requireVersion =
     (case n of
        None \<Rightarrow> Inr (False, [])
      | Some nd \<Rightarrow>
          (case node_json nd of
             None \<Rightarrow> Inl NilDereference
           | Some j \<Rightarrow> MatchPlatform_loop w platform requireVersion (CPEMatch j)))"

section \<open>Notions of the specification\<close>

text \<open>
  The leading maximal run of ASCII decimal digits of a string, and the unsigned integer
  it denotes (0 for the empty run). A run has a superfluous leading zero when it has two
  digits or more and starts with \<open>0\<close>.
\<close>

definition isDigit :: "char \<Rightarrow> bool" where
  "isDigit c = (48 \<le> byte c \<and> byte c \<le> 57)"

definition digitPrefix :: "string \<Rightarrow> string" where
  "digitPrefix s = takeWhile isDigit s"

fun decValue :: "string \<Rightarrow> nat" where
  "decValue [] = 0"
| "decValue (c # cs) = (byte c - 48) * 10 ^ length cs + decValue cs"

fun noLeadingZero :: "string \<Rightarrow> bool" where
  "noLeadingZero (c # d # cs) = (byte c \<noteq> 48)"
| "noLeadingZero cs = True"

text \<open>
  A rule declares a version bound; every bound a rule declares passes for a version:
  version >= startIncluding, version > startExcluding, version <= endIncluding,
  version < endExcluding under smartVerCmp.
\<close>

definition hasBounds :: "DefCPEMatch \<Rightarrow> bool" where
  "hasBounds m =
     (VersionStartIncluding m \<noteq> [] \<or> VersionStartExcluding m \<noteq> [] \<or>
      VersionEndIncluding m \<noteq> [] \<or> VersionEndExcluding m \<noteq> [])"

definition boundsPass :: "string \<Rightarrow> DefCPEMatch \<Rightarrow> bool" where
  "boundsPass ver m =
     ((VersionStartIncluding m = [] \<or> smartVerCmp ver (VersionStartIncluding m) \<ge> 0) \<and>
      (VersionStartExcluding m = [] \<or> smartVerCmp ver (VersionStartExcluding m) > 0) \<and>
      (VersionEndIncluding m = [] \<or> smartVerCmp ver (VersionEndIncluding m) \<le> 0) \<and>
      (VersionEndExcluding m = [] \<or> smartVerCmp ver (VersionEndExcluding m) < 0))"

text \<open>The non-nil elements of a slice of pointers, in order.\<close>

fun nonNil :: "'a option list \<Rightarrow> 'a list" where
  "nonNil [] = []"
| "nonNil (None # xs) = nonNil xs"
| "nonNil (Some x # xs) = x # nonNil xs"

text \<open>
  The slot newNode fills for a rule: the identifier \<open>Parse\<close> returns for the rule's
  target, or nil when \<open>Parse\<close> returns an error.
\<close>

definition resolved :: "'r wfn \<Rightarrow> DefCPEMatch \<Rightarrow> 'r Attributes_scheme option" where
  "resolved w m = (case Parse w (targetUri m) of Inl err \<Rightarrow> None | Inr cpe \<Rightarrow> Some cpe)"

text \<open>
  A record has no identity: its CVE section or its metadata is absent, or its
  identifier is the empty string.
\<close>

definition noIdentity :: "'f DefCVEItem \<Rightarrow> bool" where
  "noIdentity j =
     (case CVE j of
        None \<Rightarrow> True
      | Some c \<Rightarrow> (case CVEDataMeta c of None \<Rightarrow> True | Some m \<Rightarrow> ID m = []))"

section \<open>An instance of the identifier primitives, and concrete inputs\<close>

text \<open>
  The theorems below hold for every environment \<open>w\<close>. To evaluate the model at
  concrete inputs they are instantiated with this small environment, in which an
  identifier is its version attribute alone: the empty string does not parse, \<open>*\<close>
  parses to the version ANY (the empty string) and any other string to itself, so that
  \<open>-\<close> parses to the version NA; two identifiers match when either version is ANY or
  the versions are equal; StripSlashes deletes the backslashes.
\<close>

definition exampleWfn :: "unit wfn" where
  "exampleWfn =
     \<lparr>Parse = (\<lambda>s. if s = [] then Inl ParseError
                    else if s = ''*'' then Inr \<lparr>Version = []\<rparr>
                    else Inr \<lparr>Version = s\<rparr>),
      Match = (\<lambda>a p. case p of
                  None \<Rightarrow> False
                | Some b \<Rightarrow> Version a = [] \<or> Version b = [] \<or> Version a = Version b),
      StripSlashes = filter (\<lambda>c. c \<noteq> CHR 0x5C),
      Any = [],
      NA = ''-''\<rparr>"

definition rule :: "string \<Rightarrow> string \<Rightarrow> string \<Rightarrow> DefCPEMatch" where
  "rule uri startIncluding endExcluding =
     \<lparr>Cpe22Uri = [], Cpe23Uri = uri,
      VersionStartIncluding = startIncluding, VersionStartExcluding = [],
      VersionEndIncluding = [], VersionEndExcluding = endExcluding\<rparr>"

chapter \<open>Verification\<close>

section \<open>The version comparator\<close>

lemma digitRun_le: "digitRun v \<le> length v"
  by (induction v) auto

lemma byte_eq_iff: "byte x = byte y \<longleftrightarrow> x = y"
  by (simp add: byte_def)

lemma digitRun_takeWhile: "digitRun v = length (digitPrefix v)"
  by (induction v) (auto simp: digitPrefix_def isDigit_def)

lemma digitPrefix_take: "digitPrefix v = take (digitRun v) v"
  by (induction v) (auto simp: digitPrefix_def isDigit_def)

lemma digitPrefix_digits: "\<forall>c \<in> set (digitPrefix v). isDigit c"
  unfolding digitPrefix_def by (auto dest: set_takeWhileD)

lemma fst_parseVerParts: "fst (parseVerParts v) = digitRun v"
  by (simp add: parseVerParts_def Let_def split: option.splits)

lemma IndexFunc_isPunct_ge: "IndexFunc v isPunct = Some i \<Longrightarrow> digitRun v \<le> i"
proof (induction v arbitrary: i)
  case Nil
  then show ?case by simp
next
  case (Cons c cs)
  show ?case
  proof (cases "isPunct (byte c)")
    case True
    then show ?thesis by (auto simp: isPunct_def)
  next
    case False
    with Cons.prems obtain j where j: "IndexFunc cs isPunct = Some j" "i = Suc j"
      by (auto split: option.splits)
    from Cons.IH [OF j(1)] j(2) show ?thesis by simp
  qed
qed

lemma cmpTo_ge: "digitRun v \<le> fst (snd (parseVerParts v))"
  using digitRun_le [of v]
  by (auto simp: parseVerParts_def Let_def split: option.splits dest: IndexFunc_isPunct_ge)

lemma take_cmpTo: "\<exists>x. take (fst (snd (parseVerParts v))) v = digitPrefix v @ x"
proof -
  let ?n = "fst (snd (parseVerParts v))"
  have "?n = digitRun v + (?n - digitRun v)" using cmpTo_ge [of v] by simp
  then have "take ?n v = take (digitRun v) v @ take (?n - digitRun v) (drop (digitRun v) v)"
    by (metis take_add)
  then show ?thesis by (auto simp: digitPrefix_take)
qed

lemma Compare_append:
  "length a = length b \<Longrightarrow> a \<noteq> b \<Longrightarrow> Compare (a @ x) (b @ y) = Compare a b"
  by (induction a b rule: list_induct2) (auto simp: byte_eq_iff)

lemma decValue_less: "\<forall>c \<in> set a. isDigit c \<Longrightarrow> decValue a < 10 ^ length a"
proof (induction a)
  case Nil
  then show ?case by simp
next
  case (Cons c cs)
  then have "decValue cs < 10 ^ length cs" and "byte c - 48 \<le> 9"
    by (auto simp: isDigit_def)
  then have "(byte c - 48) * 10 ^ length cs + decValue cs < 9 * 10 ^ length cs + 10 ^ length cs"
    by (meson add_le_less_mono mult_le_mono1)
  then show ?case by simp
qed

lemma decValue_head_less:
  assumes "length xs = length ys" "\<forall>c \<in> set xs. isDigit c" "isDigit x" "isDigit y" "byte x < byte y"
  shows "decValue (x # xs) < decValue (y # ys)"
proof -
  let ?P = "(10::nat) ^ length xs"
  have "decValue xs < ?P" using assms(2) by (rule decValue_less)
  then have "decValue (x # xs) < (byte x - 48) * ?P + ?P" by simp
  also have "\<dots> = (byte x - 48 + 1) * ?P" by simp
  also have "\<dots> \<le> (byte y - 48) * ?P"
    using assms(3,5) by (intro mult_le_mono1) (auto simp: isDigit_def)
  also have "\<dots> \<le> decValue (y # ys)" using assms(1) by simp
  finally show ?thesis .
qed

lemma Compare_digits:
  "length a = length b \<Longrightarrow> \<forall>c \<in> set a. isDigit c \<Longrightarrow> \<forall>c \<in> set b. isDigit c \<Longrightarrow>
   Compare a b = (if decValue a < decValue b then - 1 else if decValue b < decValue a then 1 else 0)"
proof (induction a b rule: list_induct2)
  case Nil
  then show ?case by simp
next
  case (Cons x xs y ys)
  consider "byte x < byte y" | "byte y < byte x" | "byte x = byte y" by linarith
  then show ?case
  proof cases
    case 1
    with Cons have "decValue (x # xs) < decValue (y # ys)"
      by (intro decValue_head_less) auto
    with 1 show ?thesis by simp
  next
    case 2
    with Cons have "decValue (y # ys) < decValue (x # xs)"
      by (intro decValue_head_less) auto
    with 2 show ?thesis by simp
  next
    case 3
    with Cons show ?thesis by simp
  qed
qed

lemma decValue_lower:
  assumes "isDigit c" "byte c \<noteq> 48"
  shows "10 ^ length cs \<le> decValue (c # cs)"
proof -
  from assms obtain k where "byte c - 48 = Suc k"
    by (cases "byte c - 48") (auto simp: isDigit_def)
  then show ?thesis by simp
qed

lemma shorter_run_smaller:
  assumes d1: "\<forall>c \<in> set r1. isDigit c" and d2: "\<forall>c \<in> set r2. isDigit c"
    and len: "length r1 < length r2" and nz: "noLeadingZero r2"
    and ne: "decValue r1 \<noteq> decValue r2"
  shows "decValue r1 < decValue r2"
proof (cases r2)
  case Nil
  with len show ?thesis by simp
next
  case (Cons c cs)
  show ?thesis
  proof (cases cs)
    case Nil
    with Cons len have "r1 = []" by simp
    with ne show ?thesis by simp
  next
    case (Cons d ds)
    with \<open>r2 = c # cs\<close> nz have "byte c \<noteq> 48" by simp
    with d2 \<open>r2 = c # cs\<close> have "10 ^ length cs \<le> decValue r2"
      using decValue_lower [of c cs] by simp
    moreover have "decValue r1 < 10 ^ length r1" using d1 by (rule decValue_less)
    moreover have "(10::nat) ^ length r1 \<le> 10 ^ length cs"
      using len \<open>r2 = c # cs\<close> by (intro power_increasing) auto
    ultimately show ?thesis by linarith
  qed
qed

lemma smartVerCmp_shorter_run:
  assumes "digitRun v1 < digitRun v2"
  shows "smartVerCmp v1 v2 = - 1"
proof (cases "v1 = []")
  case True
  with assms have "v2 \<noteq> []" by auto
  with True show ?thesis by (simp add: smartVerCmp_def smartVerCmp_loop.simps)
next
  case False
  from assms have "v2 \<noteq> []" by auto
  obtain n1 c1 k1 where p1: "parseVerParts v1 = (n1, c1, k1)" by (cases "parseVerParts v1")
  obtain n2 c2 k2 where p2: "parseVerParts v2 = (n2, c2, k2)" by (cases "parseVerParts v2")
  from p1 p2 fst_parseVerParts [of v1] fst_parseVerParts [of v2] assms have "n1 < n2" by simp
  with False \<open>v2 \<noteq> []\<close> p1 p2 show ?thesis
    by (simp add: smartVerCmp_def smartVerCmp_loop.simps [of v1 v2])
qed

lemma smartVerCmp_longer_run:
  assumes "digitRun v2 < digitRun v1"
  shows "smartVerCmp v1 v2 = 1"
proof (cases "v2 = []")
  case True
  with assms have "v1 \<noteq> []" by auto
  with True show ?thesis by (simp add: smartVerCmp_def smartVerCmp_loop.simps)
next
  case False
  from assms have "v1 \<noteq> []" by auto
  obtain n1 c1 k1 where p1: "parseVerParts v1 = (n1, c1, k1)" by (cases "parseVerParts v1")
  obtain n2 c2 k2 where p2: "parseVerParts v2 = (n2, c2, k2)" by (cases "parseVerParts v2")
  from p1 p2 fst_parseVerParts [of v1] fst_parseVerParts [of v2] assms have "n2 < n1" by simp
  with False \<open>v1 \<noteq> []\<close> p1 p2 show ?thesis
    by (simp add: smartVerCmp_def smartVerCmp_loop.simps [of v1 v2])
qed

lemma smartVerCmp_equal_run:
  assumes len: "digitRun v1 = digitRun v2"
    and ne: "decValue (digitPrefix v1) \<noteq> decValue (digitPrefix v2)"
  shows "smartVerCmp v1 v2 = (if decValue (digitPrefix v1) < decValue (digitPrefix v2) then - 1 else 1)"
proof -
  let ?r1 = "digitPrefix v1" and ?r2 = "digitPrefix v2"
  have leq: "length ?r1 = length ?r2" using len by (simp add: digitRun_takeWhile)
  have rne: "?r1 \<noteq> ?r2" using ne by auto
  then have "?r1 \<noteq> [] \<or> ?r2 \<noteq> []" by auto
  with leq have "?r1 \<noteq> []" "?r2 \<noteq> []" by auto
  then have nonempty: "v1 \<noteq> []" "v2 \<noteq> []" by (auto simp: digitPrefix_def)
  obtain n1 c1 k1 where p1: "parseVerParts v1 = (n1, c1, k1)" by (cases "parseVerParts v1")
  obtain n2 c2 k2 where p2: "parseVerParts v2 = (n2, c2, k2)" by (cases "parseVerParts v2")
  from p1 p2 fst_parseVerParts [of v1] fst_parseVerParts [of v2] len have neq: "n1 = n2" by simp
  from take_cmpTo [of v1] p1 obtain x where x: "take c1 v1 = ?r1 @ x" by auto
  from take_cmpTo [of v2] p2 obtain y where y: "take c2 v2 = ?r2 @ y" by auto
  have "Compare (take c1 v1) (take c2 v2) = Compare ?r1 ?r2"
    unfolding x y using leq rne by (rule Compare_append)
  also have "\<dots> = (if decValue ?r1 < decValue ?r2 then - 1 else 1)"
    using Compare_digits [OF leq digitPrefix_digits digitPrefix_digits] ne by auto
  finally have cmp: "Compare (take c1 v1) (take c2 v2) = (if decValue ?r1 < decValue ?r2 then - 1 else 1)" .
  show ?thesis
    using nonempty p1 p2 neq cmp
    by (simp add: smartVerCmp_def smartVerCmp_loop.simps [of v1 v2])
qed


text \<open>
  Claim C4, as the code has it. smartVerCmp compares the lengths of the two leading
  digit runs, not the integers they denote: when the lengths differ, the longer run wins
  whatever the digits are. When the runs denote unequal integers and have the same
  length, or neither has a superfluous leading zero, the result is the sign of the
  numeric comparison. In particular \<open>9\<close> is below \<open>10\<close> and \<open>1.9\<close> below \<open>1.10\<close>,
  and \<open>010\<close> is above \<open>20\<close>.
\<close>

theorem smartVerCmp_digit_runs:
  "(length (digitPrefix v1) \<noteq> length (digitPrefix v2) \<longrightarrow>
      smartVerCmp v1 v2 = (if length (digitPrefix v1) < length (digitPrefix v2) then - 1 else 1)) \<and>
   (decValue (digitPrefix v1) \<noteq> decValue (digitPrefix v2) \<and>
    (length (digitPrefix v1) = length (digitPrefix v2) \<or>
     noLeadingZero (digitPrefix v1) \<and> noLeadingZero (digitPrefix v2)) \<longrightarrow>
      smartVerCmp v1 v2 = (if decValue (digitPrefix v1) < decValue (digitPrefix v2) then - 1 else 1)) \<and>
   smartVerCmp ''9'' ''10'' < 0 \<and> smartVerCmp ''1.9'' ''1.10'' < 0 \<and>
   smartVerCmp ''010'' ''20'' > 0"
proof (intro conjI impI)
  assume "length (digitPrefix v1) \<noteq> length (digitPrefix v2)"
  then consider "digitRun v1 < digitRun v2" | "digitRun v2 < digitRun v1"
    unfolding digitRun_takeWhile by linarith
  then show "smartVerCmp v1 v2 = (if length (digitPrefix v1) < length (digitPrefix v2) then - 1 else 1)"
  proof cases
    case 1
    then show ?thesis using smartVerCmp_shorter_run [of v1 v2] by (simp add: digitRun_takeWhile)
  next
    case 2
    then show ?thesis using smartVerCmp_longer_run [where ?v1.0 = v1 and ?v2.0 = v2] by (simp add: digitRun_takeWhile)
  qed
next
  let ?r1 = "digitPrefix v1" and ?r2 = "digitPrefix v2"
  assume a: "decValue ?r1 \<noteq> decValue ?r2 \<and>
    (length ?r1 = length ?r2 \<or> noLeadingZero ?r1 \<and> noLeadingZero ?r2)"
  consider "length ?r1 = length ?r2" | "length ?r1 < length ?r2" "noLeadingZero ?r2"
    | "length ?r2 < length ?r1" "noLeadingZero ?r1"
    using a by linarith
  then show "smartVerCmp v1 v2 = (if decValue ?r1 < decValue ?r2 then - 1 else 1)"
  proof cases
    case 1
    then show ?thesis using a smartVerCmp_equal_run [of v1 v2] by (simp add: digitRun_takeWhile)
  next
    case 2
    then have "decValue ?r1 < decValue ?r2"
      using a shorter_run_smaller [OF digitPrefix_digits digitPrefix_digits, of v1 v2] by simp
    then show ?thesis using 2 smartVerCmp_shorter_run [of v1 v2] by (simp add: digitRun_takeWhile)
  next
    case 3
    then have "decValue ?r2 < decValue ?r1"
      using a shorter_run_smaller [OF digitPrefix_digits digitPrefix_digits, of v2 v1] by simp
    then show ?thesis using 3 smartVerCmp_longer_run [where ?v1.0 = v1 and ?v2.0 = v2] by (simp add: digitRun_takeWhile)
  qed
next
  show "smartVerCmp ''9'' ''10'' < 0" by code_simp
next
  show "smartVerCmp ''1.9'' ''1.10'' < 0" by code_simp
next
  show "smartVerCmp ''010'' ''20'' > 0" by code_simp
qed

text \<open>
  The three cases of C4 at concrete versions: runs of different lengths, runs of the
  same length, and runs without leading zeros.
\<close>

theorem smartVerCmp_digit_runs_witness:
  "length (digitPrefix ''9a'') < length (digitPrefix ''10'') \<and>
   smartVerCmp ''9a'' ''10'' = - 1 \<and>
   decValue (digitPrefix ''27.1'') = 27 \<and> decValue (digitPrefix ''31'') = 31 \<and>
   length (digitPrefix ''27.1'') = length (digitPrefix ''31'') \<and>
   smartVerCmp ''27.1'' ''31'' = - 1 \<and>
   decValue (digitPrefix ''100'') = 100 \<and> decValue (digitPrefix ''9.9'') = 9 \<and>
   noLeadingZero (digitPrefix ''100'') \<and> noLeadingZero (digitPrefix ''9.9'') \<and>
   smartVerCmp ''100'' ''9.9'' = 1"
proof -
  have a: "length (digitPrefix ''9a'') < length (digitPrefix ''10'')" by code_simp
  have b: "decValue (digitPrefix ''27.1'') = 27" "decValue (digitPrefix ''31'') = 31"
    "length (digitPrefix ''27.1'') = length (digitPrefix ''31'')" by code_simp+
  have c: "decValue (digitPrefix ''100'') = 100" "decValue (digitPrefix ''9.9'') = 9"
    "noLeadingZero (digitPrefix ''100'')" "noLeadingZero (digitPrefix ''9.9'')" by code_simp+
  from a smartVerCmp_digit_runs [of "''9a''" "''10''"]
  have 1: "smartVerCmp ''9a'' ''10'' = - 1" by simp
  from b smartVerCmp_digit_runs [of "''27.1''" "''31''"]
  have 2: "smartVerCmp ''27.1'' ''31'' = - 1" by simp
  from c smartVerCmp_digit_runs [of "''100''" "''9.9''"]
  have 3: "smartVerCmp ''100'' ''9.9'' = 1" by simp
  from a b c 1 2 3 show ?thesis by blast
qed

text \<open>
  Claim C4 as stated fails for a run with leading zeros: \<open>010\<close> denotes 10 and \<open>20\<close>
  denotes 20, and smartVerCmp does not put \<open>010\<close> below \<open>20\<close>.
\<close>

theorem smartVerCmp_leading_zeros_counterexample:
  "decValue (digitPrefix ''010'') = 10 \<and> decValue (digitPrefix ''20'') = 20 \<and>
   \<not> smartVerCmp ''010'' ''20'' < 0"
  by code_simp


section \<open>Resolving identifiers and building nodes\<close>

text \<open>
  node2CPE on a fresh wrapper parses the rule's target; on a wrapper that holds an
  identifier it returns that identifier and parses nothing.
\<close>

lemma node2CPE_fresh:
  "node2CPE w (Some \<lparr>cpeMatch_json = Some m, wfname = None\<rparr>) =
     (case Parse w (targetUri m) of
        Inl err \<Rightarrow> Inr (Inl err, Some \<lparr>cpeMatch_json = Some m, wfname = None\<rparr>, [targetUri m])
      | Inr name \<Rightarrow>
          Inr (Inr name, Some \<lparr>cpeMatch_json = Some m, wfname = Some name\<rparr>, [targetUri m]))"
  by (simp add: node2CPE_def split: sum.splits)

lemma node2CPE_cached:
  "wfname nd = Some name \<Longrightarrow> node2CPE w (Some nd) = Inr (Inr name, Some nd, [])"
  by (simp add: node2CPE_def)

text \<open>
  newNode on a raw node whose rule entries are all non-nil: it returns, every child is
  wrapped bare, there is one slot per rule, and every target is parsed once.
\<close>

lemma newNode_cpes_present:
  "newNode_cpes w (map Some ms) = Inr (map (resolved w) ms, map targetUri ms)"
  by (induction ms) (auto simp: node2CPE_fresh resolved_def split: sum.splits)

lemma newNode_present:
  assumes "CPEMatch j = map Some ms"
  shows "newNode w (Some j) =
    Inr (Node (Some j) (map (\<lambda>child. Node child [] []) (Children j)) (map (resolved w) ms),
         map targetUri ms)"
proof -
  have cpes: "(if length (CPEMatch j) \<noteq> 0 then newNode_cpes w (CPEMatch j) else Inr ([], [])) =
      Inr (map (resolved w) ms, map targetUri ms)"
    using assms newNode_cpes_present [of w ms] by (cases ms) simp_all
  have children: "(if length (Children j) \<noteq> 0
      then map (\<lambda>child. Node child [] []) (Children j) else []) =
      map (\<lambda>child. Node child [] []) (Children j)"
    by simp
  show ?thesis
    unfolding newNode_def option.case Let_def cpes children by simp
qed

lemma newNode_children:
  assumes "newNode w json = Inr (n, parsed)"
  shows "\<exists>j. json = Some j \<and> node_json n = Some j \<and>
           nvdcommonChildren n = map (\<lambda>child. Node child [] []) (Children j)"
proof (cases json)
  case None
  with assms show ?thesis by (simp add: newNode_def)
next
  case (Some j)
  let ?cs = "map (\<lambda>child. Node child [] []) (Children j) :: 'a node list"
  let ?r = "if length (CPEMatch j) \<noteq> 0 then newNode_cpes w (CPEMatch j) else Inr ([], [])"
  have children: "(if length (Children j) \<noteq> 0
      then map (\<lambda>child. Node child [] []) (Children j) else []) = ?cs"
    by simp
  have unfold: "newNode w json =
      (case ?r of Inl p \<Rightarrow> Inl p | Inr (cpes, parsed) \<Rightarrow> Inr (Node (Some j) ?cs cpes, parsed))"
    unfolding newNode_def Some option.case Let_def children by simp
  show ?thesis
  proof (cases ?r)
    case (Inl p)
    with assms unfold show ?thesis by simp
  next
    case (Inr r)
    obtain cpes ps where "r = (cpes, ps)" by (cases r)
    with Inr assms unfold have "n = Node (Some j) ?cs cpes" by simp
    with Some show ?thesis by simp
  qed
qed

lemma newCveItem_nodes_children:
  "newCveItem_nodes w ns = Inr (nds, parsed) \<Longrightarrow>
   \<forall>root \<in> set nds. \<forall>c \<in> set (nvdcommonChildren root).
     nvdcommonChildren c = [] \<and> wfnCPEs c = []"
proof (induction ns arbitrary: nds parsed)
  case Nil
  then show ?case by simp
next
  case (Cons n ns)
  from Cons.prems obtain nd p nds' p' where
    nd: "newNode w n = Inr (nd, p)" and
    rest: "newCveItem_nodes w ns = Inr (nds', p')" and
    nds: "nds = nd # nds'"
    by (simp split: sum.splits prod.splits)
  from newNode_children [OF nd] obtain j
    where "nvdcommonChildren nd = map (\<lambda>child. Node child [] []) (Children j)"
    by blast
  then have "\<forall>c \<in> set (nvdcommonChildren nd). nvdcommonChildren c = [] \<and> wfnCPEs c = []"
    by simp
  with Cons.IH [OF rest] show ?case
    unfolding nds by (metis set_ConsD)
qed

text \<open>The example environment and the example rule, field by field.\<close>

lemma exampleWfn_simps:
  "Any exampleWfn = []" "NA exampleWfn = ''-''"
  "Parse exampleWfn s =
     (if s = [] then Inl ParseError else if s = ''*'' then Inr \<lparr>Version = []\<rparr>
      else Inr \<lparr>Version = s\<rparr>)"
  "Match exampleWfn a (Some b) = (Version a = [] \<or> Version b = [] \<or> Version a = Version b)"
  "StripSlashes exampleWfn s = filter (\<lambda>c. c \<noteq> CHR 0x5C) s"
  by (simp_all add: exampleWfn_def)

lemma rule_simps:
  "targetUri (rule uri si ee) = uri"
  "VersionStartIncluding (rule uri si ee) = si" "VersionStartExcluding (rule uri si ee) = []"
  "VersionEndIncluding (rule uri si ee) = []" "VersionEndExcluding (rule uri si ee) = ee"
  by (simp_all add: rule_def targetUri_def)

text \<open>
  Claim C1 says that construction builds the tree recursively, so that grandchildren
  are reachable through two applications of InnerTests and every descendant's
  identifiers are resolved. The code does not: newNode wraps each child as a bare node.
  Whenever newNode returns, the node has one child per raw child, and every child
  exposes no children and no identifiers of its own, whatever the raw child holds; the
  same holds for the children of every root that newCveItem builds.
\<close>

theorem children_not_built:
  "(newNode w (Some j) = Inr (n, parsed) \<longrightarrow>
      InnerTests (Some n) = map (\<lambda>child. Node child [] []) (Children j) \<and>
      (\<forall>c \<in> set (InnerTests (Some n)). InnerTests (Some c) = [] \<and> CPEs (Some c) = [])) \<and>
   (newCveItem w json = Inr (item, parsed') \<longrightarrow>
      (\<forall>root \<in> set (Config (Some item)). \<forall>c \<in> set (InnerTests (Some root)).
         InnerTests (Some c) = [] \<and> CPEs (Some c) = []))"
proof (intro conjI impI)
  assume "newNode w (Some j) = Inr (n, parsed)"
  from newNode_children [OF this]
  have c: "nvdcommonChildren n = map (\<lambda>child. Node child [] []) (Children j)" by simp
  then show "InnerTests (Some n) = map (\<lambda>child. Node child [] []) (Children j)"
    by (simp add: InnerTests_def)
  from c show "\<forall>c \<in> set (InnerTests (Some n)). InnerTests (Some c) = [] \<and> CPEs (Some c) = []"
    by (auto simp: InnerTests_def CPEs_def)
next
  assume "newCveItem w json = Inr (item, parsed')"
  then obtain ns where "newCveItem_nodes w ns = Inr (configNodes item, parsed')"
    unfolding newCveItem_def
    by (simp split: option.splits sum.splits prod.splits) fastforce
  from newCveItem_nodes_children [OF this]
  show "\<forall>root \<in> set (Config (Some item)). \<forall>c \<in> set (InnerTests (Some root)).
         InnerTests (Some c) = [] \<and> CPEs (Some c) = []"
    by (simp add: Config_def InnerTests_def CPEs_def)
qed

text \<open>
  C1 at a record with a root, a child and a grandchild: the child that newCveItem builds
  exposes neither the grandchild nor the identifier of its own rule.
\<close>

theorem children_not_built_witness:
  "newCveItem exampleWfn
     (Some (\<lparr>CVE = None,
       Configurations = Some \<lparr>Nodes =
         [Some (DefNode ''AND'' False
            [Some (DefNode ''OR'' False [Some (DefNode ''OR'' False [] [])]
               [Some (rule ''1.0'' [] [])])] [])]\<rparr>,
       Impact = None\<rparr> :: int DefCVEItem)) =
     Inr (\<lparr>cveItem_json = Some \<lparr>CVE = None,
       Configurations = Some \<lparr>Nodes =
         [Some (DefNode ''AND'' False
            [Some (DefNode ''OR'' False [Some (DefNode ''OR'' False [] [])]
               [Some (rule ''1.0'' [] [])])] [])]\<rparr>,
       Impact = None\<rparr>,
       configNodes =
         [Node (Some (DefNode ''AND'' False
            [Some (DefNode ''OR'' False [Some (DefNode ''OR'' False [] [])]
               [Some (rule ''1.0'' [] [])])] []))
            [Node (Some (DefNode ''OR'' False [Some (DefNode ''OR'' False [] [])]
               [Some (rule ''1.0'' [] [])])) [] []] []]\<rparr>, []) \<and>
   InnerTests (Some (Node (Some (DefNode ''OR'' False [Some (DefNode ''OR'' False [] [])]
           [Some (rule ''1.0'' [] [])])) [] [] :: unit node)) = [] \<and>
   CPEs (Some (Node (Some (DefNode ''OR'' False [Some (DefNode ''OR'' False [] [])]
           [Some (rule ''1.0'' [] [])])) [] [] :: unit node)) = []"
proof -
  let ?g = "DefNode ''OR'' False [] []"
  let ?c = "DefNode ''OR'' False [Some ?g] [Some (rule ''1.0'' [] [])]"
  let ?r = "DefNode ''AND'' False [Some ?c] []"
  let ?json = "\<lparr>CVE = None, Configurations = Some \<lparr>Nodes = [Some ?r]\<rparr>, Impact = None\<rparr>
    :: int DefCVEItem"
  let ?n = "Node (Some ?r) [Node (Some ?c) [] []] [] :: unit node"
  let ?item = "\<lparr>cveItem_json = Some ?json, configNodes = [?n]\<rparr>"
  have e: "newCveItem exampleWfn (Some ?json) = Inr (?item, [])"
    by (simp add: newCveItem_def newNode_def)
  from children_not_built [of exampleWfn ?r ?n "[]" "Some ?json" ?item "[]"] e
  have b: "\<forall>root \<in> set (Config (Some ?item)). \<forall>c \<in> set (InnerTests (Some root)).
      InnerTests (Some c) = [] \<and> CPEs (Some c) = []"
    by blast
  have m1: "?n \<in> set (Config (Some ?item))" by (simp add: Config_def)
  have m2: "Node (Some ?c) [] [] \<in> set (InnerTests (Some ?n))" by (simp add: InnerTests_def)
  from b m1 m2 have "InnerTests (Some (Node (Some ?c) [] [] :: unit node)) = [] \<and>
      CPEs (Some (Node (Some ?c) [] [] :: unit node)) = []"
    by blast
  with e show ?thesis by simp
qed

text \<open>
  Claim C7, as the code has it. For a raw node whose rule entries are all non-nil,
  newNode returns a node whose CPEs holds exactly one slot per rule, in the order of
  the rules: the resolved identifier where \<open>Parse\<close> succeeds and nil where it returns
  an error. A rule that fails to resolve is not left out: its slot is a nil entry.
\<close>

theorem newNode_CPEs_slots:
  assumes "CPEMatch j = map Some ms"
  shows "\<exists>n parsed. newNode w (Some j) = Inr (n, parsed) \<and>
           CPEs (Some n) = map (resolved w) ms \<and>
           length (CPEs (Some n)) = length (CPEMatch j) \<and>
           (\<forall>i < length ms. (CPEs (Some n) ! i = None) = (\<exists>err. Parse w (targetUri (ms ! i)) = Inl err))"
proof -
  let ?n = "Node (Some j) (map (\<lambda>child. Node child [] []) (Children j)) (map (resolved w) ms)"
  have n: "newNode w (Some j) = Inr (?n, map targetUri ms)"
    using assms by (rule newNode_present)
  have c: "CPEs (Some ?n) = map (resolved w) ms" by (simp add: CPEs_def)
  have "\<forall>i < length ms. (CPEs (Some ?n) ! i = None) = (\<exists>err. Parse w (targetUri (ms ! i)) = Inl err)"
    unfolding c by (auto simp: resolved_def split: sum.splits)
  with n c assms show ?thesis
    by (intro exI [of _ ?n] exI [of _ "map targetUri ms"]) simp
qed

text \<open>
  C7 at a node with two rules, the first of which does not parse: two slots, the first
  nil.
\<close>

theorem newNode_CPEs_slots_witness:
  "newNode exampleWfn (Some (DefNode ''OR'' False [] [Some (rule [] [] []), Some (rule ''1.0'' [] [])])) =
     Inr (Node (Some (DefNode ''OR'' False [] [Some (rule [] [] []), Some (rule ''1.0'' [] [])])) []
            [None, Some \<lparr>Version = ''1.0''\<rparr>], [[], ''1.0'']) \<and>
   map (resolved exampleWfn) [rule [] [] [], rule ''1.0'' [] []] = [None, Some \<lparr>Version = ''1.0''\<rparr>]"
proof -
  let ?ms = "[rule [] [] [], rule ''1.0'' [] []]"
  let ?j = "DefNode ''OR'' False [] (map Some ?ms)"
  have r: "map (resolved exampleWfn) ?ms = [None, Some \<lparr>Version = ''1.0''\<rparr>]"
    by (simp add: resolved_def exampleWfn_simps rule_simps)
  from newNode_CPEs_slots [of ?j ?ms exampleWfn]
  obtain n parsed where n: "newNode exampleWfn (Some ?j) = Inr (n, parsed)"
    "CPEs (Some n) = map (resolved exampleWfn) ?ms"
    by auto
  have e: "newNode exampleWfn (Some ?j) =
      Inr (Node (Some ?j) [] [None, Some \<lparr>Version = ''1.0''\<rparr>], [[], ''1.0''])"
    by (simp add: newNode_def node2CPE_fresh exampleWfn_simps rule_simps)
  with n r show ?thesis by simp
qed

text \<open>
  Claim C7 as stated fails: for a node with one rule that does not parse and one that
  does, CPEs returns two entries, a nil one and the resolved identifier, not the
  resolved identifier alone.
\<close>

theorem CPEs_placeholder_counterexample:
  "newNode exampleWfn (Some (DefNode ''OR'' False [] [Some (rule [] [] []), Some (rule ''1.0'' [] [])])) =
     Inr (Node (Some (DefNode ''OR'' False [] [Some (rule [] [] []), Some (rule ''1.0'' [] [])])) []
            [None, Some \<lparr>Version = ''1.0''\<rparr>], [[], ''1.0'']) \<and>
   CPEs (Some (Node (Some (DefNode ''OR'' False [] [Some (rule [] [] []), Some (rule ''1.0'' [] [])])) []
            [None, Some \<lparr>Version = ''1.0''\<rparr>])) = [None, Some \<lparr>Version = ''1.0''\<rparr>] \<and>
   CPEs (Some (Node (Some (DefNode ''OR'' False [] [Some (rule [] [] []), Some (rule ''1.0'' [] [])])) []
            [None, Some \<lparr>Version = ''1.0''\<rparr>])) \<noteq> [Some \<lparr>Version = ''1.0''\<rparr>]"
  by (simp add: newNode_def node2CPE_fresh exampleWfn_simps rule_simps CPEs_def)

section \<open>Matching a platform\<close>

text \<open>
  A rule that declares a bound, resolves, and matches the platform structurally once
  its version is forced to ANY, for a platform with a concrete version: the check
  \<open>cpe.Version == wfn.NA\<close> cannot fire, since the version has just been set to ANY,
  and the turn of the loop is decided by the bounds alone.
\<close>

lemma matchVersion_range:
  assumes "Any w \<noteq> NA w" "hasBounds m" "Match w (cpe\<lparr>Version := Any w\<rparr>) (Some pf)"
    "Version pf \<noteq> Any w" "Version pf \<noteq> NA w"
  shows "matchVersion w (Some pf) m (cpe\<lparr>Version := Any w\<rparr>) =
    Inr (if boundsPass (StripSlashes w (Version pf)) m then Return True else Continue)"
  using assms by (auto simp: matchVersion_def hasBounds_def boundsPass_def Let_def)

lemma matchRule_range:
  assumes "Any w \<noteq> NA w" "Parse w (targetUri m) = Inr cpe" "hasBounds m"
    "Match w (cpe\<lparr>Version := Any w\<rparr>) (Some pf)"
    "Version pf \<noteq> Any w" "Version pf \<noteq> NA w"
  shows "matchRule w (Some pf) requireVersion (Some m) =
    Inr (if boundsPass (StripSlashes w (Version pf)) m then Return True else Continue,
         [targetUri m])"
proof -
  have "matchRule w (Some pf) requireVersion (Some m) =
      (case matchVersion w (Some pf) m (cpe\<lparr>Version := Any w\<rparr>) of
         Inl p \<Rightarrow> Inl p | Inr f \<Rightarrow> Inr (f, [targetUri m]))"
    using assms(2,3) by (simp add: matchRule_def node2CPE_fresh hasBounds_def)
  then show ?thesis
    by (simp add: matchVersion_range [OF assms(1,3,4,5,6)])
qed

lemma MatchPlatform_Some:
  "node_json nd = Some j \<Longrightarrow>
   MatchPlatform w (Some nd) platform requireVersion =
     MatchPlatform_loop w platform requireVersion (CPEMatch j)"
  by (simp add: MatchPlatform_def)

text \<open>
  MatchPlatform over non-nil rules and a non-nil platform returns, and it has parsed
  the targets of the rules it went through, starting with the first.
\<close>

lemma MatchPlatform_loop_present:
  "\<exists>b k. k \<le> length ms \<and>
     MatchPlatform_loop w (Some pf) requireVersion (map Some ms) =
       Inr (b, map targetUri (take k ms)) \<and> (ms \<noteq> [] \<longrightarrow> 0 < k)"
proof (induction ms)
  case Nil
  show ?case by (intro exI [of _ False] exI [of _ 0]) simp
next
  case (Cons m ms)
  then obtain b k where IH: "k \<le> length ms"
    "MatchPlatform_loop w (Some pf) requireVersion (map Some ms) = Inr (b, map targetUri (take k ms))"
    by blast
  have mv: "\<And>cpe. \<exists>f. matchVersion w (Some pf) m cpe = Inr f"
    by (simp add: matchVersion_def Let_def)
  have "\<exists>f. matchRule w (Some pf) requireVersion (Some m) = Inr (f, [targetUri m])"
  proof (cases "Parse w (targetUri m)")
    case (Inl err)
    then show ?thesis by (simp add: matchRule_def node2CPE_fresh)
  next
    case (Inr cpe)
    from mv [of cpe] obtain f1 where f1: "matchVersion w (Some pf) m cpe = Inr f1" by blast
    from mv [of "cpe\<lparr>Version := Any w\<rparr>"] obtain f2
      where f2: "matchVersion w (Some pf) m (cpe\<lparr>Version := Any w\<rparr>) = Inr f2" by blast
    from Inr f1 f2 show ?thesis by (simp add: matchRule_def node2CPE_fresh)
  qed
  then obtain f where f: "matchRule w (Some pf) requireVersion (Some m) = Inr (f, [targetUri m])"
    by blast
  show ?case
  proof (cases f)
    case Continue
    with f IH have "MatchPlatform_loop w (Some pf) requireVersion (map Some (m # ms)) =
        Inr (b, map targetUri (take (Suc k) (m # ms)))"
      by simp
    with IH(1) show ?thesis by (intro exI [of _ b] exI [of _ "Suc k"]) simp
  next
    case (Return r)
    with f have "MatchPlatform_loop w (Some pf) requireVersion (map Some (m # ms)) =
        Inr (r, map targetUri (take (Suc 0) (m # ms)))"
      by simp
    then show ?thesis by (intro exI [of _ r] exI [of _ "Suc 0"]) simp
  qed
qed

text \<open>
  Claim C5. Take a rule at the head of a node's rule list that declares at least one
  version bound, whose target resolves, and whose structural match against the platform
  succeeds (on the target with its version forced to ANY), for a platform whose version
  is neither ANY nor NA, the two being distinct values. Then the rule matches exactly
  when every bound it declares passes under smartVerCmp on the platform's version with
  the escapes stripped: MatchPlatform returns true when they pass and goes on with the
  rest of the list when they do not. In particular the rule with versionStartIncluding
  \<open>2.0\<close> and versionEndExcluding \<open>3.0\<close> matches the versions \<open>2.0\<close> and \<open>2.5\<close>
  and does not match \<open>1.9\<close> and \<open>3.0\<close>.
\<close>

theorem MatchPlatform_range_rule:
  assumes "Any w \<noteq> NA w"
    and "node_json nd = Some j" and "CPEMatch j = Some m # rest"
    and "Parse w (targetUri m) = Inr cpe"
    and "hasBounds m"
    and "Match w (cpe\<lparr>Version := Any w\<rparr>) (Some pf)"
    and "Version pf \<noteq> Any w" and "Version pf \<noteq> NA w"
    and "ver = StripSlashes w (Version pf)"
  shows "matchRule w (Some pf) requireVersion (Some m) =
           Inr (if boundsPass ver m then Return True else Continue, [targetUri m]) \<and>
         MatchPlatform w (Some nd) (Some pf) requireVersion =
           (if boundsPass ver m then Inr (True, [targetUri m])
            else (case MatchPlatform_loop w (Some pf) requireVersion rest of
                    Inl p \<Rightarrow> Inl p
                  | Inr (b, parsed) \<Rightarrow> Inr (b, targetUri m # parsed))) \<and>
         (VersionStartIncluding m = ''2.0'' \<and> VersionStartExcluding m = [] \<and>
          VersionEndIncluding m = [] \<and> VersionEndExcluding m = ''3.0'' \<longrightarrow>
            (ver = ''2.0'' \<or> ver = ''2.5'' \<longrightarrow>
               matchRule w (Some pf) requireVersion (Some m) = Inr (Return True, [targetUri m])) \<and>
            (ver = ''1.9'' \<or> ver = ''3.0'' \<longrightarrow>
               matchRule w (Some pf) requireVersion (Some m) = Inr (Continue, [targetUri m])))"
proof -
  have r: "matchRule w (Some pf) requireVersion (Some m) =
      Inr (if boundsPass ver m then Return True else Continue, [targetUri m])"
    unfolding assms(9) using assms(1,4,5,6,7,8) by (rule matchRule_range)
  have l: "MatchPlatform w (Some nd) (Some pf) requireVersion =
      MatchPlatform_loop w (Some pf) requireVersion (Some m # rest)"
    using assms(2,3) by (simp add: MatchPlatform_Some)
  have c: "smartVerCmp ''2.0'' ''2.0'' = 0" "smartVerCmp ''2.0'' ''3.0'' = - 1"
    "smartVerCmp ''2.5'' ''2.0'' = 1" "smartVerCmp ''2.5'' ''3.0'' = - 1"
    "smartVerCmp ''1.9'' ''2.0'' = - 1" "smartVerCmp ''3.0'' ''2.0'' = 1"
    "smartVerCmp ''3.0'' ''3.0'' = 0"
    by code_simp+
  have e: "VersionStartIncluding m = ''2.0'' \<and> VersionStartExcluding m = [] \<and>
      VersionEndIncluding m = [] \<and> VersionEndExcluding m = ''3.0'' \<Longrightarrow>
      (ver = ''2.0'' \<or> ver = ''2.5'' \<longrightarrow> boundsPass ver m) \<and>
      (ver = ''1.9'' \<or> ver = ''3.0'' \<longrightarrow> \<not> boundsPass ver m)"
    using c by (auto simp: boundsPass_def)
  show ?thesis
  proof (intro conjI impI)
    show "matchRule w (Some pf) requireVersion (Some m) =
      Inr (if boundsPass ver m then Return True else Continue, [targetUri m])" by (rule r)
  next
    show "MatchPlatform w (Some nd) (Some pf) requireVersion =
           (if boundsPass ver m then Inr (True, [targetUri m])
            else (case MatchPlatform_loop w (Some pf) requireVersion rest of
                    Inl p \<Rightarrow> Inl p
                  | Inr (b, parsed) \<Rightarrow> Inr (b, targetUri m # parsed)))"
      unfolding l by (simp add: r split: sum.splits)
  next
    assume b: "VersionStartIncluding m = ''2.0'' \<and> VersionStartExcluding m = [] \<and>
      VersionEndIncluding m = [] \<and> VersionEndExcluding m = ''3.0''"
      and "ver = ''2.0'' \<or> ver = ''2.5''"
    with e have "boundsPass ver m" by blast
    with r show "matchRule w (Some pf) requireVersion (Some m) = Inr (Return True, [targetUri m])"
      by simp
  next
    assume b: "VersionStartIncluding m = ''2.0'' \<and> VersionStartExcluding m = [] \<and>
      VersionEndIncluding m = [] \<and> VersionEndExcluding m = ''3.0''"
      and "ver = ''1.9'' \<or> ver = ''3.0''"
    with e have "\<not> boundsPass ver m" by blast
    with r show "matchRule w (Some pf) requireVersion (Some m) = Inr (Continue, [targetUri m])"
      by simp
  qed
qed

text \<open>
  C5 at a node whose single rule has the bounds \<open>2.0\<close> (start, including) and
  \<open>3.0\<close> (end, excluding), for the platform versions \<open>2.5\<close>, \<open>2.0\<close>, \<open>1.9\<close> and
  \<open>3.0\<close>.
\<close>

theorem MatchPlatform_range_rule_witness:
  "hasBounds (rule ''*'' ''2.0'' ''3.0'') \<and>
   MatchPlatform exampleWfn
     (Some (Node (Some (DefNode ''OR'' False [] [Some (rule ''*'' ''2.0'' ''3.0'')])) [] []))
     (Some \<lparr>Version = ''2.5''\<rparr>) False = Inr (True, [''*'']) \<and>
   MatchPlatform exampleWfn
     (Some (Node (Some (DefNode ''OR'' False [] [Some (rule ''*'' ''2.0'' ''3.0'')])) [] []))
     (Some \<lparr>Version = ''2.0''\<rparr>) False = Inr (True, [''*'']) \<and>
   MatchPlatform exampleWfn
     (Some (Node (Some (DefNode ''OR'' False [] [Some (rule ''*'' ''2.0'' ''3.0'')])) [] []))
     (Some \<lparr>Version = ''1.9''\<rparr>) False = Inr (False, [''*'']) \<and>
   MatchPlatform exampleWfn
     (Some (Node (Some (DefNode ''OR'' False [] [Some (rule ''*'' ''2.0'' ''3.0'')])) [] []))
     (Some \<lparr>Version = ''3.0''\<rparr>) False = Inr (False, [''*''])"
proof -
  let ?m = "rule ''*'' ''2.0'' ''3.0''"
  let ?j = "DefNode ''OR'' False [] [Some ?m]"
  let ?nd = "Node (Some ?j) [] [] :: unit node"
  have hb: "hasBounds ?m" by (simp add: hasBounds_def rule_simps)
  have bp: "boundsPass ''2.5'' ?m" "boundsPass ''2.0'' ?m"
    "\<not> boundsPass ''1.9'' ?m" "\<not> boundsPass ''3.0'' ?m"
    by code_simp+
  have t: "MatchPlatform exampleWfn (Some ?nd) (Some \<lparr>Version = v\<rparr>) False =
      (if boundsPass v ?m then Inr (True, [''*'']) else Inr (False, [''*'']))"
    if "v \<noteq> []" "v \<noteq> ''-''" "filter (\<lambda>c. c \<noteq> CHR 0x5C) v = v" for v
    using MatchPlatform_range_rule [of exampleWfn ?nd ?j ?m "[]" "\<lparr>Version = []\<rparr>"
        "\<lparr>Version = v\<rparr>" v False] hb that
    by (simp add: exampleWfn_simps rule_simps)
  from hb bp t [of "''2.5''"] t [of "''2.0''"] t [of "''1.9''"] t [of "''3.0''"]
  show ?thesis by simp
qed

text \<open>
  Claim C2 says that a rule whose target resolves with the version NA and which declares
  a bound never matches a concrete platform version. The code does match through such a
  rule: the version NA is overwritten with ANY before the structural match, so the later
  check \<open>cpe.Version == wfn.NA\<close> never fires, and when the structural match succeeds
  and the bounds pass MatchPlatform returns true.
\<close>

theorem MatchPlatform_NA_target_range:
  assumes "Any w \<noteq> NA w"
    and "node_json nd = Some j" and "CPEMatch j = Some m # rest"
    and "Parse w (targetUri m) = Inr cpe" and "Version cpe = NA w"
    and "hasBounds m"
    and "Match w (cpe\<lparr>Version := Any w\<rparr>) (Some pf)"
    and "Version pf \<noteq> Any w" and "Version pf \<noteq> NA w"
    and "boundsPass (StripSlashes w (Version pf)) m"
  shows "MatchPlatform w (Some nd) (Some pf) requireVersion = Inr (True, [targetUri m])"
proof -
  have "matchRule w (Some pf) requireVersion (Some m) = Inr (Return True, [targetUri m])"
    using matchRule_range [OF assms(1,4,6,7,8,9)] assms(10) by simp
  then show ?thesis
    using assms(2,3) by (simp add: MatchPlatform_Some)
qed

text \<open>
  C2 at a rule whose target resolves with the version NA and which has the bounds
  \<open>2.0\<close> and \<open>3.0\<close>: MatchPlatform reports a match for the platform version \<open>2.5\<close>.
\<close>

theorem MatchPlatform_NA_target_range_witness:
  "Parse exampleWfn (targetUri (rule ''-'' ''2.0'' ''3.0'')) = Inr \<lparr>Version = NA exampleWfn\<rparr> \<and>
   hasBounds (rule ''-'' ''2.0'' ''3.0'') \<and>
   MatchPlatform exampleWfn
     (Some (Node (Some (DefNode ''OR'' False [] [Some (rule ''-'' ''2.0'' ''3.0'')])) [] []))
     (Some \<lparr>Version = ''2.5''\<rparr>) False = Inr (True, [''-''])"
proof -
  let ?m = "rule ''-'' ''2.0'' ''3.0''"
  let ?j = "DefNode ''OR'' False [] [Some ?m]"
  let ?nd = "Node (Some ?j) [] [] :: unit node"
  have hb: "hasBounds ?m" by (simp add: hasBounds_def rule_simps)
  have bp: "boundsPass ''2.5'' ?m" by code_simp
  from hb bp
    MatchPlatform_NA_target_range [of exampleWfn ?nd ?j ?m "[]" "\<lparr>Version = ''-''\<rparr>"
      "\<lparr>Version = ''2.5''\<rparr>" False]
  show ?thesis by (simp add: exampleWfn_simps rule_simps)
qed

text \<open>
  Claim C3 says that a rule's target is parsed at most once and that MatchPlatform reuses
  the identifiers resolved at construction. The code parses again: newNode and
  MatchPlatform each wrap the rule in a fresh \<open>cpeMatch\<close>, so the cache of node2CPE is
  always empty. For a raw node whose rule entries are non-nil, newNode parses the target
  of every rule and stores the results, and every later call of MatchPlatform on the
  node it built, for a non-nil platform, parses the target of the first rule once more
  (and that of every further rule it reaches).
\<close>

theorem MatchPlatform_parses_again:
  assumes "CPEMatch j = map Some (m # ms)"
  shows "\<exists>n b k. newNode w (Some j) = Inr (n, map targetUri (m # ms)) \<and>
           wfnCPEs n = map (resolved w) (m # ms) \<and>
           MatchPlatform w (Some n) (Some pf) requireVersion =
             Inr (b, targetUri m # map targetUri (take k ms))"
proof -
  let ?n = "Node (Some j) (map (\<lambda>child. Node child [] []) (Children j))
      (map (resolved w) (m # ms))"
  have n: "newNode w (Some j) = Inr (?n, map targetUri (m # ms))"
    using assms by (rule newNode_present)
  from MatchPlatform_loop_present [of "m # ms" w pf requireVersion]
  obtain b k where k: "0 < k"
    "MatchPlatform_loop w (Some pf) requireVersion (map Some (m # ms)) =
       Inr (b, map targetUri (take k (m # ms)))"
    by auto
  from k(1) obtain k' where "k = Suc k'" by (cases k) auto
  with k(2) assms have "MatchPlatform w (Some ?n) (Some pf) requireVersion =
      Inr (b, targetUri m # map targetUri (take k' ms))"
    by (simp add: MatchPlatform_Some)
  with n show ?thesis by (intro exI [of _ ?n] exI [of _ b] exI [of _ k']) simp
qed

text \<open>
  C3 at a node with one rule that resolves: the target is parsed by newNode, and parsed
  again by MatchPlatform on the node newNode returned.
\<close>

theorem MatchPlatform_parses_again_witness:
  "newNode exampleWfn (Some (DefNode ''OR'' False [] [Some (rule ''1.0'' [] [])])) =
     Inr (Node (Some (DefNode ''OR'' False [] [Some (rule ''1.0'' [] [])])) []
            [Some \<lparr>Version = ''1.0''\<rparr>], [''1.0'']) \<and>
   MatchPlatform exampleWfn
     (Some (Node (Some (DefNode ''OR'' False [] [Some (rule ''1.0'' [] [])])) []
        [Some \<lparr>Version = ''1.0''\<rparr>]))
     (Some \<lparr>Version = ''1.0''\<rparr>) False = Inr (True, [''1.0''])"
proof -
  let ?m = "rule ''1.0'' [] []"
  let ?j = "DefNode ''OR'' False [] [Some ?m]"
  from MatchPlatform_parses_again [of ?j ?m "[]" exampleWfn "\<lparr>Version = ''1.0''\<rparr>" False]
  obtain n b where n: "newNode exampleWfn (Some ?j) = Inr (n, [''1.0''])"
    "wfnCPEs n = [resolved exampleWfn ?m]"
    and b: "MatchPlatform exampleWfn (Some n) (Some \<lparr>Version = ''1.0''\<rparr>) False =
      Inr (b, [''1.0''])"
    by (auto simp: rule_simps)
  have e: "newNode exampleWfn (Some ?j) =
      Inr (Node (Some ?j) [] [Some \<lparr>Version = ''1.0''\<rparr>], [''1.0''])"
    by (simp add: newNode_def node2CPE_fresh exampleWfn_simps rule_simps)
  with n have n': "n = Node (Some ?j) [] [Some \<lparr>Version = ''1.0''\<rparr>]" by simp
  have "MatchPlatform exampleWfn (Some n) (Some \<lparr>Version = ''1.0''\<rparr>) False =
      Inr (True, [''1.0''])"
    unfolding n'
    by (simp add: MatchPlatform_def matchRule_def matchVersion_def node2CPE_fresh
        exampleWfn_simps rule_simps)
  with e n' show ?thesis by simp
qed

text \<open>
  Claim C9. On a nil node LogicalOperator returns the empty string, NegateIfNeeded
  returns its argument, InnerTests and CPEs return the empty sequence and MatchPlatform
  returns false; none of them panics, and MatchPlatform parses nothing.
\<close>

theorem nil_node_accessors:
  "LogicalOperator None = Inr [] \<and> NegateIfNeeded None b = Inr b \<and>
   InnerTests None = [] \<and> CPEs None = [] \<and>
   MatchPlatform w None platform requireVersion = Inr (False, [])"
  by (simp add: LogicalOperator_def NegateIfNeeded_def InnerTests_def CPEs_def MatchPlatform_def)

text \<open>C9 at concrete arguments.\<close>

theorem nil_node_accessors_witness:
  "LogicalOperator (None :: unit node option) = Inr [] \<and>
   NegateIfNeeded (None :: unit node option) True = Inr True \<and>
   InnerTests (None :: unit node option) = [] \<and> CPEs (None :: unit node option) = [] \<and>
   MatchPlatform exampleWfn None (Some \<lparr>Version = ''1.0''\<rparr>) True = Inr (False, [])"
  using nil_node_accessors [of True exampleWfn "Some \<lparr>Version = ''1.0''\<rparr>" True]
  by simp

section \<open>The accessors of a record\<close>

lemma getLangStr_loop_eq:
  "getLangStr_loop s lss =
     (case find (\<lambda>ls. Lang ls = ''en'') (nonNil lss) of
        Some ls \<Rightarrow> Value ls
      | None \<Rightarrow> if nonNil lss = [] then s else Value (last (nonNil lss)))"
  by (induction s lss rule: getLangStr_loop.induct) (auto split: option.splits)

lemma ProblemTypes_loop_eq:
  "ProblemTypes_loop pts = map (\<lambda>e. getLangStr (ptDescription e)) (nonNil pts)"
  by (induction pts rule: ProblemTypes_loop.induct) auto

text \<open>
  Claim C6, as the code has it. For a record with a non-empty identifier and a
  problem-type section, ProblemTypes returns one string per non-nil classification
  entry, in order: the value of the first non-nil variant whose language is \<open>en\<close> when
  there is one, and otherwise the value of the last non-nil variant (the empty string
  when the entry has no non-nil variant). The fallback is the last variant, not the
  first.
\<close>

theorem ProblemTypes_language_choice:
  assumes "cveItem_json it = Some j" and "CVE j = Some c" and "CVEDataMeta c = Some md"
    and "ID md \<noteq> []" and "Problemtype c = Some pt"
  shows "ProblemTypes (Some it) =
     Inr (map (\<lambda>e. case find (\<lambda>ls. Lang ls = ''en'') (nonNil (ptDescription e)) of
                      Some ls \<Rightarrow> Value ls
                    | None \<Rightarrow> if nonNil (ptDescription e) = [] then []
                              else Value (last (nonNil (ptDescription e))))
            (nonNil (ProblemtypeData pt)))"
  using assms
  by (simp add: ProblemTypes_def ProblemTypes_loop_eq getLangStr_def getLangStr_loop_eq)

text \<open>
  C6 at a record with four entries: one with an English variant, a nil entry, one
  without an English variant, and one with a nil variant only.
\<close>

theorem ProblemTypes_language_choice_witness:
  "ProblemTypes (Some (\<lparr>cveItem_json = Some \<lparr>CVE = Some \<lparr>CVEDataMeta = Some \<lparr>ID = ''CVE-1''\<rparr>,
       Problemtype = Some \<lparr>ProblemtypeData =
         [Some \<lparr>ptDescription = [Some \<lparr>Lang = ''fr'', Value = ''CWE-1''\<rparr>,
                                  Some \<lparr>Lang = ''en'', Value = ''CWE-2''\<rparr>,
                                  Some \<lparr>Lang = ''en'', Value = ''CWE-3''\<rparr>]\<rparr>,
          None,
          Some \<lparr>ptDescription = [Some \<lparr>Lang = ''fr'', Value = ''CWE-4''\<rparr>, None,
                                  Some \<lparr>Lang = ''de'', Value = ''CWE-5''\<rparr>, None]\<rparr>,
          Some \<lparr>ptDescription = [None]\<rparr>]\<rparr>,
       cveDescription = None\<rparr>, Configurations = None, Impact = None\<rparr>,
     configNodes = []\<rparr> :: (int, unit) cveItem)) = Inr [''CWE-2'', ''CWE-5'', []]"
  using ProblemTypes_language_choice [of
    "\<lparr>cveItem_json = Some \<lparr>CVE = Some \<lparr>CVEDataMeta = Some \<lparr>ID = ''CVE-1''\<rparr>,
       Problemtype = Some \<lparr>ProblemtypeData =
         [Some \<lparr>ptDescription = [Some \<lparr>Lang = ''fr'', Value = ''CWE-1''\<rparr>,
                                  Some \<lparr>Lang = ''en'', Value = ''CWE-2''\<rparr>,
                                  Some \<lparr>Lang = ''en'', Value = ''CWE-3''\<rparr>]\<rparr>,
          None,
          Some \<lparr>ptDescription = [Some \<lparr>Lang = ''fr'', Value = ''CWE-4''\<rparr>, None,
                                  Some \<lparr>Lang = ''de'', Value = ''CWE-5''\<rparr>, None]\<rparr>,
          Some \<lparr>ptDescription = [None]\<rparr>]\<rparr>,
       cveDescription = None\<rparr>, Configurations = None, Impact = None\<rparr>,
     configNodes = []\<rparr> :: (int, unit) cveItem"]
  by simp

text \<open>
  Claim C6 as stated fails: for an entry with a French variant followed by a German one
  and no English variant, ProblemTypes returns the value of the German variant, not that
  of the first available variant.
\<close>

theorem ProblemTypes_first_variant_counterexample:
  "ProblemTypes (Some (\<lparr>cveItem_json = Some \<lparr>CVE = Some \<lparr>CVEDataMeta = Some \<lparr>ID = ''CVE-1''\<rparr>,
       Problemtype = Some \<lparr>ProblemtypeData =
         [Some \<lparr>ptDescription = [Some \<lparr>Lang = ''fr'', Value = ''CWE-4''\<rparr>,
                                  Some \<lparr>Lang = ''de'', Value = ''CWE-5''\<rparr>]\<rparr>]\<rparr>,
       cveDescription = None\<rparr>, Configurations = None, Impact = None\<rparr>,
     configNodes = []\<rparr> :: (int, unit) cveItem)) = Inr [''CWE-5''] \<and>
   getLangStr [Some \<lparr>Lang = ''fr'', Value = ''CWE-4''\<rparr>, Some \<lparr>Lang = ''de'', Value = ''CWE-5''\<rparr>]
     \<noteq> ''CWE-4''"
  by (simp add: ProblemTypes_def getLangStr_def)

text \<open>
  Claim C8 says that no accessor fails on an absent section. CVEID and Description do:
  they dereference the CVE section, its metadata and its description section without
  the nil checks that ProblemTypes makes, and panic when one of them is nil.
  ProblemTypes returns the empty list on a record without a CVE section, and the two
  score accessors return 0.0 on a record without an impact section.
\<close>

theorem accessors_absent_sections:
  assumes "cveItem_json it = Some j"
  shows "(CVE j = None \<longrightarrow>
            CVEID (Some it) = Inl NilDereference \<and> Description (Some it) = Inl NilDereference \<and>
            ProblemTypes (Some it) = Inr []) \<and>
         (\<forall>c. CVE j = Some c \<and> CVEDataMeta c = None \<longrightarrow> CVEID (Some it) = Inl NilDereference) \<and>
         (\<forall>c. CVE j = Some c \<and> cveDescription c = None \<longrightarrow>
            Description (Some it) = Inl NilDereference) \<and>
         (Impact j = None \<longrightarrow> CVSS20base (Some it) = Inr 0 \<and> CVSS30base (Some it) = Inr 0)"
  using assms
  by (simp add: CVEID_def Description_def ProblemTypes_def CVSS20base_def CVSS30base_def)

text \<open>
  C8 at a record whose CVE section is nil: CVEID and Description panic, ProblemTypes and
  CVSS20base return their defaults.
\<close>

theorem accessors_absent_sections_witness:
  "CVEID (Some (\<lparr>cveItem_json = Some \<lparr>CVE = None, Configurations = None, Impact = None\<rparr>,
      configNodes = []\<rparr> :: (int, unit) cveItem)) = Inl NilDereference \<and>
   Description (Some (\<lparr>cveItem_json = Some \<lparr>CVE = None, Configurations = None, Impact = None\<rparr>,
      configNodes = []\<rparr> :: (int, unit) cveItem)) = Inl NilDereference \<and>
   ProblemTypes (Some (\<lparr>cveItem_json = Some \<lparr>CVE = None, Configurations = None, Impact = None\<rparr>,
      configNodes = []\<rparr> :: (int, unit) cveItem)) = Inr [] \<and>
   CVSS20base (Some (\<lparr>cveItem_json = Some \<lparr>CVE = None, Configurations = None, Impact = None\<rparr>,
      configNodes = []\<rparr> :: (int, unit) cveItem)) = Inr 0"
  using accessors_absent_sections [of
    "\<lparr>cveItem_json = Some \<lparr>CVE = None, Configurations = None, Impact = None\<rparr>,
      configNodes = []\<rparr> :: (int, unit) cveItem"
    "\<lparr>CVE = None, Configurations = None, Impact = None\<rparr>"]
  by simp

text \<open>
  Claim C10. For a record whose CVE section or metadata is absent, or whose identifier
  is the empty string, ProblemTypes returns the empty list, whatever classification
  entries the record holds.
\<close>

theorem ProblemTypes_no_identity:
  assumes "cveItem_json it = Some j" and "noIdentity j"
  shows "ProblemTypes (Some it) = Inr []"
  using assms by (auto simp: ProblemTypes_def noIdentity_def split: option.splits)

text \<open>
  C10 at a record with an empty identifier and one classification entry.
\<close>

theorem ProblemTypes_no_identity_witness:
  "noIdentity (\<lparr>CVE = Some \<lparr>CVEDataMeta = Some \<lparr>ID = []\<rparr>,
       Problemtype = Some \<lparr>ProblemtypeData =
         [Some \<lparr>ptDescription = [Some \<lparr>Lang = ''en'', Value = ''CWE-79''\<rparr>]\<rparr>]\<rparr>,
       cveDescription = None\<rparr>, Configurations = None, Impact = None\<rparr> :: int DefCVEItem) \<and>
   ProblemTypes (Some (\<lparr>cveItem_json = Some \<lparr>CVE = Some \<lparr>CVEDataMeta = Some \<lparr>ID = []\<rparr>,
       Problemtype = Some \<lparr>ProblemtypeData =
         [Some \<lparr>ptDescription = [Some \<lparr>Lang = ''en'', Value = ''CWE-79''\<rparr>]\<rparr>]\<rparr>,
       cveDescription = None\<rparr>, Configurations = None, Impact = None\<rparr>,
     configNodes = []\<rparr> :: (int, unit) cveItem)) = Inr []"
proof -
  let ?j = "\<lparr>CVE = Some \<lparr>CVEDataMeta = Some \<lparr>ID = []\<rparr>,
       Problemtype = Some \<lparr>ProblemtypeData =
         [Some \<lparr>ptDescription = [Some \<lparr>Lang = ''en'', Value = ''CWE-79''\<rparr>]\<rparr>]\<rparr>,
       cveDescription = None\<rparr>, Configurations = None, Impact = None\<rparr> :: int DefCVEItem"
  have n: "noIdentity ?j" by (simp add: noIdentity_def)
  from ProblemTypes_no_identity [of "\<lparr>cveItem_json = Some ?j, configNodes = []\<rparr>" ?j, OF _ n] n
  show ?thesis by simp
qed

end
